theory Spec2Isabelle
  imports Main "HOL-Library.Word"
begin

unbundle bit_operations_syntax

section \<open>Data model\<close>

text \<open>
  The Go package \<open>proxy\<close> works on byte slices. A \<open>byte\<close> (\<open>uint8\<close>) is an 8-bit word,
  \<open>uint16\<close>, \<open>uint32\<close> and \<open>uint64\<close> are words of that width, a \<open>[]byte\<close> is a list of
  bytes. A Go \<open>string\<close> is an immutable byte sequence, and the conversions
  \<open>string(b)\<close> and \<open>[]byte(s)\<close> keep the bytes, so a Go string is a list of bytes too.
  A slice length \<open>len(b)\<close> is a natural number.
\<close>

type_synonym byte = "8 word"
type_synonym uint16 = "16 word"
type_synonym uint32 = "32 word"
type_synonym uint64 = "64 word"
type_synonym bytes = "byte list"

text \<open>A string literal of the source, as the bytes Go stores for it.\<close>

definition lit :: "string \<Rightarrow> bytes" where
  "lit s = map (\<lambda>c. of_nat (of_char c)) s"

text \<open>
  The values of Go's \<open>error\<close> that the package can produce: its three sentinels,
  the two sentinels of \<open>io\<close> that \<open>io.ReadFull\<close> returns, the error of a write on a
  transport that does not accept it, and the errors built with \<open>fmt.Errorf\<close>
  (a wrapped error keeps its prefix and its cause).
\<close>

datatype error =
    ErrInvalidPacket
  | ErrInvalidHandshake
  | ErrAuthFailed
  | EOF
  | ErrUnexpectedEOF
  | ErrWrite
  | PayloadTooLarge nat
  | UnsupportedCommand byte
  | Wrapped string error

text \<open>
  A run-time panic of Go (slice bounds out of range, index out of range) is not an
  \<open>error\<close> value: it unwinds the stack. A function that can panic returns \<open>Panic\<close>
  or \<open>Returns v\<close>.
\<close>

datatype 'a go = Panic | Returns 'a

section \<open>Scalar encoders\<close>

text \<open>
  \<open>ReadLengthEncodedInt(data []byte) (uint64, int, error)\<close>. The error returns are
  \<open>(0, 0, ErrInvalidPacket)\<close>, the others \<open>(value, size, nil)\<close>. Every index is
  guarded by the length test before it.
\<close>

definition ReadLengthEncodedInt :: "bytes \<Rightarrow> error + (uint64 \<times> nat)" where
  "ReadLengthEncodedInt data =
    (if length data = 0 then Inl ErrInvalidPacket
     else let first = data ! 0 in
       if first < 0xFB then Inr (ucast first, 1)
       else if first = 0xFB then Inr (0, 1)
       else if first = 0xFC then
         (if length data < 3 then Inl ErrInvalidPacket
          else Inr (ucast (data ! 1) OR push_bit 8 (ucast (data ! 2)), 3))
       else if first = 0xFD then
         (if length data < 4 then Inl ErrInvalidPacket
          else Inr (ucast (data ! 1) OR push_bit 8 (ucast (data ! 2))
                      OR push_bit 16 (ucast (data ! 3)), 4))
       else if first = 0xFE then
         (if length data < 9 then Inl ErrInvalidPacket
          else Inr (ucast (data ! 1) OR push_bit 8 (ucast (data ! 2))
                      OR push_bit 16 (ucast (data ! 3)) OR push_bit 24 (ucast (data ! 4))
                      OR push_bit 32 (ucast (data ! 5)) OR push_bit 40 (ucast (data ! 6))
                      OR push_bit 48 (ucast (data ! 7)) OR push_bit 56 (ucast (data ! 8)), 9))
       else Inl ErrInvalidPacket)"

text \<open>
  \<open>lengthEncode(n uint64) ([]byte, error)\<close>; the error is \<open>nil\<close> on every path, so the
  model returns the bytes. \<open>byte(n >> k)\<close> keeps the low 8 bits of the shifted value;
  \<open>binary.LittleEndian.PutUint64\<close> stores the eight bytes lowest first.
\<close>

definition lengthEncode :: "uint64 \<Rightarrow> bytes" where
  "lengthEncode n =
    (if n < 251 then [ucast n]
     else if n < 2 ^ 16 then [0xFC, ucast n, ucast (drop_bit 8 n)]
     else if n < 2 ^ 24 then [0xFD, ucast n, ucast (drop_bit 8 n), ucast (drop_bit 16 n)]
     else [0xFE, ucast n, ucast (drop_bit 8 n), ucast (drop_bit 16 n), ucast (drop_bit 24 n),
           ucast (drop_bit 32 n), ucast (drop_bit 40 n), ucast (drop_bit 48 n),
           ucast (drop_bit 56 n)])"

text \<open>
  \<open>ReadNullTerminatedString(data []byte) (string, int, error)\<close>.
  \<open>bytes.IndexByte(data, 0)\<close> is the index of the first zero byte, or -1.
\<close>

fun IndexByte :: "bytes \<Rightarrow> byte \<Rightarrow> nat option" where
  "IndexByte [] c = None"
| "IndexByte (b # bs) c = (if b = c then Some 0 else map_option Suc (IndexByte bs c))"

definition ReadNullTerminatedString :: "bytes \<Rightarrow> error + (bytes \<times> nat)" where
  "ReadNullTerminatedString data =
    (case IndexByte data 0 of
       None \<Rightarrow> Inl ErrInvalidPacket
     | Some i \<Rightarrow> Inr (take i data, i + 1))"

section \<open>Response builders\<close>

text \<open>
  \<open>NewOKPacket(affectedRows, lastInsertID uint64, status uint16) []byte\<close>;
  \<open>binary.LittleEndian.PutUint16\<close> stores the low byte first.
\<close>

definition le16 :: "uint16 \<Rightarrow> bytes" where
  "le16 v = [ucast v, ucast (drop_bit 8 v)]"

definition NewOKPacket :: "uint64 \<Rightarrow> uint64 \<Rightarrow> uint16 \<Rightarrow> bytes" where
  "NewOKPacket affectedRows lastInsertID status =
     [0x00] @ lengthEncode affectedRows @ lengthEncode lastInsertID @ le16 status @ le16 0"

text \<open>
  \<open>NewErrPacket(code uint16, sqlState, message string) []byte\<close>; the marker
  \<open>'#'\<close> is the byte \<open>0x23\<close>.
\<close>

definition NewErrPacket :: "uint16 \<Rightarrow> bytes \<Rightarrow> bytes \<Rightarrow> bytes" where
  "NewErrPacket code sqlState message =
     [0xFF] @ [ucast code, ucast (drop_bit 8 code)] @ [0x23] @ sqlState @ message"

section \<open>Packet codec\<close>

text \<open>
  An \<open>io.Reader\<close> is the sequence of bytes that the peer still sends before it closes
  the stream. \<open>io.ReadFull(r, buf)\<close> with \<open>len(buf) = n\<close> fills the buffer when
  \<open>n\<close> bytes are left; otherwise it consumes what is left and returns \<open>io.EOF\<close> when
  it read nothing and \<open>io.ErrUnexpectedEOF\<close> when it read a part.
\<close>

type_synonym reader = bytes

definition ReadFull :: "reader \<Rightarrow> nat \<Rightarrow> (error + bytes) \<times> reader" where
  "ReadFull r n =
     (if n \<le> length r then (Inr (take n r), drop n r)
      else if r = [] then (Inl EOF, [])
      else (Inl ErrUnexpectedEOF, []))"

text \<open>
  An \<open>io.Writer\<close> holds the bytes written to it so far. A writer that is
  \<open>broken\<close> (a transport that the peer has closed) refuses every write with an error and
  keeps nothing of it; a \<open>bytes.Buffer\<close> is never broken.
\<close>

record writer =
  written :: bytes
  broken :: bool

definition Write :: "writer \<Rightarrow> bytes \<Rightarrow> error option \<times> writer" where
  "Write w p =
     (if broken w then (Some ErrWrite, w)
      else (None, w\<lparr>written := written w @ p\<rparr>))"

text \<open>A fresh \<open>bytes.Buffer\<close>, the write target of the package's tests.\<close>

definition empty_buffer :: writer where
  "empty_buffer = \<lparr>written = [], broken = False\<rparr>"

record Packet =
  Length :: uint32
  Sequence :: byte
  Payload :: bytes

text \<open>
  \<open>ReadPacket(r io.Reader) (*Packet, error)\<close>. The packet of declared length 0 is
  returned with the \<open>Payload\<close> field unset, the nil slice, which has no bytes.
\<close>

definition ReadPacket :: "reader \<Rightarrow> (error + Packet) \<times> reader" where
  "ReadPacket r =
     (case ReadFull r 4 of
        (Inl err, r') \<Rightarrow> (Inl (Wrapped ''read header'' err), r')
      | (Inr header, r') \<Rightarrow>
          (let length = (ucast (header ! 0) OR push_bit 8 (ucast (header ! 1))
                          OR push_bit 16 (ucast (header ! 2)) :: uint32);
               sequence = header ! 3
           in if length = 0 then (Inr \<lparr>Length = 0, Sequence = sequence, Payload = []\<rparr>, r')
              else (case ReadFull r' (unat length) of
                      (Inl err, r'') \<Rightarrow> (Inl (Wrapped ''read payload'' err), r'')
                    | (Inr payload, r'') \<Rightarrow>
                        (Inr \<lparr>Length = length, Sequence = sequence, Payload = payload\<rparr>, r''))))"

text \<open>
  \<open>WritePacket(w io.Writer, sequence uint8, payload []byte) error\<close>.
  \<open>len(payload)\<close> is a non-negative \<open>int\<close>, so \<open>len(payload) >> k\<close> drops its low
  \<open>k\<close> bits and \<open>byte(..)\<close> keeps the low 8 bits of the result. The error of
  \<open>fmt.Errorf("payload too large: %d", len(payload))\<close> is \<open>PayloadTooLarge\<close>.
\<close>

definition packet_header :: "byte \<Rightarrow> bytes \<Rightarrow> bytes" where
  "packet_header sequence payload =
     [of_nat (length payload), of_nat (drop_bit 8 (length payload)),
      of_nat (drop_bit 16 (length payload)), sequence]"

definition WritePacket :: "writer \<Rightarrow> byte \<Rightarrow> bytes \<Rightarrow> error option \<times> writer" where
  "WritePacket w sequence payload =
     (if length payload > 0xFFFFFF then (Some (PayloadTooLarge (length payload)), w)
      else Write w (packet_header sequence payload @ payload))"

text \<open>The bytes of one packet on the wire: what \<open>WritePacket\<close> hands to the writer.\<close>

definition frame :: "byte \<Rightarrow> bytes \<Rightarrow> bytes" where
  "frame sequence payload = packet_header sequence payload @ payload"

section \<open>Credential verifier\<close>

text \<open>
  \<open>crypto/sha1\<close> is Go's standard library, not code of this package. \<open>sha1.New()\<close>,
  any number of \<open>Write\<close> calls and \<open>Sum(nil)\<close> give the SHA-1 digest (FIPS 180-4) of
  the concatenation of the bytes written: the message is padded with \<open>0x80\<close>, zero
  bytes and its bit length as 8 big-endian bytes to a multiple of 64 bytes, every block
  of 16 big-endian words is extended to 80 words and run through 80 rounds, and the five
  state words are returned big-endian, 20 bytes in all.
\<close>

definition rotl :: "nat \<Rightarrow> uint32 \<Rightarrow> uint32" where
  "rotl k x = push_bit k x OR drop_bit (32 - k) x"

definition sha1_pad :: "bytes \<Rightarrow> bytes" where
  "sha1_pad m =
     (let n = length m; bits = (of_nat (8 * n) :: uint64)
      in m @ [0x80] @ replicate ((119 - n mod 64) mod 64) 0 @
         [ucast (drop_bit 56 bits), ucast (drop_bit 48 bits), ucast (drop_bit 40 bits),
          ucast (drop_bit 32 bits), ucast (drop_bit 24 bits), ucast (drop_bit 16 bits),
          ucast (drop_bit 8 bits), ucast bits])"

fun be_words :: "bytes \<Rightarrow> uint32 list" where
  "be_words (a # b # c # d # rest) =
     (push_bit 24 (ucast a) OR push_bit 16 (ucast b) OR push_bit 8 (ucast c) OR ucast d)
       # be_words rest"
| "be_words _ = []"

fun sha1_schedule :: "nat \<Rightarrow> uint32 list \<Rightarrow> uint32 list" where
  "sha1_schedule 0 ws = ws"
| "sha1_schedule (Suc k) ws =
     (let t = length ws
      in sha1_schedule k
           (ws @ [rotl 1 (ws ! (t - 3) XOR ws ! (t - 8) XOR ws ! (t - 14) XOR ws ! (t - 16))]))"

type_synonym sha1_state = "uint32 \<times> uint32 \<times> uint32 \<times> uint32 \<times> uint32"

definition sha1_f :: "nat \<Rightarrow> uint32 \<Rightarrow> uint32 \<Rightarrow> uint32 \<Rightarrow> uint32" where
  "sha1_f t b c d =
     (if t < 20 then (b AND c) OR (NOT b AND d)
      else if t < 40 then b XOR c XOR d
      else if t < 60 then (b AND c) OR (b AND d) OR (c AND d)
      else b XOR c XOR d)"

definition sha1_k :: "nat \<Rightarrow> uint32" where
  "sha1_k t =
     (if t < 20 then 0x5A827999 else if t < 40 then 0x6ED9EBA1
      else if t < 60 then 0x8F1BBCDC else 0xCA62C1D6)"

fun sha1_rounds :: "nat \<Rightarrow> uint32 list \<Rightarrow> sha1_state \<Rightarrow> sha1_state" where
  "sha1_rounds t [] s = s"
| "sha1_rounds t (w # ws) (a, b, c, d, e) =
     sha1_rounds (Suc t) ws
       (rotl 5 a + sha1_f t b c d + e + w + sha1_k t, a, rotl 30 b, c, d)"

definition sha1_block :: "sha1_state \<Rightarrow> bytes \<Rightarrow> sha1_state" where
  "sha1_block s blk =
     (case s of (h0, h1, h2, h3, h4) \<Rightarrow>
        (case sha1_rounds 0 (sha1_schedule 64 (be_words blk)) s of
           (a, b, c, d, e) \<Rightarrow> (h0 + a, h1 + b, h2 + c, h3 + d, h4 + e)))"

function sha1_blocks :: "sha1_state \<Rightarrow> bytes \<Rightarrow> sha1_state" where
  "sha1_blocks s m =
     (if length m < 64 then s else sha1_blocks (sha1_block s (take 64 m)) (drop 64 m))"
  by pat_completeness auto
termination
  by (relation "measure (\<lambda>(s, m). length m)") auto

declare sha1_blocks.simps [simp del]

definition be_bytes :: "uint32 \<Rightarrow> bytes" where
  "be_bytes w = [ucast (drop_bit 24 w), ucast (drop_bit 16 w), ucast (drop_bit 8 w), ucast w]"

definition sha1 :: "bytes \<Rightarrow> bytes" where
  "sha1 m =
     (case sha1_blocks (0x67452301, 0xEFCDAB89, 0x98BADCFE, 0x10325476, 0xC3D2E1F0)
             (sha1_pad m) of
        (h0, h1, h2, h3, h4) \<Rightarrow>
          be_bytes h0 @ be_bytes h1 @ be_bytes h2 @ be_bytes h3 @ be_bytes h4)"

text \<open>
  An index expression \<open>s[i]\<close> panics unless \<open>0 \<le> i < len(s)\<close>. A slice expression
  \<open>s[lo:hi]\<close> on a slice whose capacity is its length (as \<open>make([]byte, n)\<close> in
  \<open>ReadPacket\<close> gives) panics unless \<open>0 \<le> lo \<le> hi \<le> len(s)\<close>; \<open>s[lo:]\<close> is
  \<open>s[lo:len(s)]\<close>. The indices are Go \<open>int\<close>s.
\<close>

definition index :: "'a list \<Rightarrow> nat \<Rightarrow> 'a go" where
  "index s i = (if i < length s then Returns (s ! i) else Panic)"

definition subslice :: "'a list \<Rightarrow> int \<Rightarrow> int \<Rightarrow> 'a list go" where
  "subslice s lo hi =
     (if 0 \<le> lo \<and> lo \<le> hi \<and> hi \<le> int (length s)
      then Returns (take (nat (hi - lo)) (drop (nat lo) s))
      else Panic)"

definition subslice_from :: "'a list \<Rightarrow> int \<Rightarrow> 'a list go" where
  "subslice_from s lo = subslice s lo (int (length s))"

text \<open>
  \<open>verifyMySQLNativePassword(clientResp, password string, scramble []byte) bool\<close>.
  The loop \<open>for i := 0; i < 20; i++\<close> returns false at the first byte that differs.
\<close>

function verify_loop :: "bytes \<Rightarrow> bytes \<Rightarrow> bytes \<Rightarrow> nat \<Rightarrow> bool go" where
  "verify_loop resp candidate stage1 i =
     (if i < 20 then
        (case (index resp i, index candidate i, index stage1 i) of
           (Returns r, Returns c, Returns s) \<Rightarrow>
             (if r \<noteq> c XOR s then Returns False
              else verify_loop resp candidate stage1 (i + 1))
         | _ \<Rightarrow> Panic)
      else Returns True)"
  by pat_completeness auto
termination
  by (relation "measure (\<lambda>(resp, candidate, stage1, i). 20 - i)") auto

declare verify_loop.simps [simp del]

definition verifyMySQLNativePassword :: "bytes \<Rightarrow> bytes \<Rightarrow> bytes \<Rightarrow> bool go" where
  "verifyMySQLNativePassword clientResp password scramble =
     (let resp = clientResp
      in if length resp \<noteq> 20 \<or> length scramble < 20 then Returns False
         else (let stage1 = sha1 password;
                   stage2 = sha1 stage1;
                   candidate = sha1 (scramble @ stage2)
               in verify_loop resp candidate stage1 0))"

section \<open>Handshake orchestrator\<close>

text \<open>
  Go's \<open>int\<close> has 64 bits on the platforms the proxy is built for. The conversion
  \<open>int(authLen)\<close> of a \<open>uint64\<close> keeps the bits, so it is the two's-complement
  reading \<open>sint\<close>, negative from \<open>2^63\<close> on, and the sum \<open>pos+int(authLen)\<close> wraps
  around at 64 bits. The other values of \<open>pos\<close> are bounded by the payload length
  plus 10 and cannot wrap.
\<close>

definition int_add :: "int \<Rightarrow> int \<Rightarrow> int" where
  "int_add a b = sint (word_of_int (a + b) :: 64 word)"

text \<open>
  \<open>handleClientHandshakePacket(payload []byte, w io.Writer, scramble []byte,
  sequence uint8) error\<close>. The result is the returned error (\<open>None\<close> for \<open>nil\<close>) or
  a panic, together with the writer. \<open>return WritePacket(..)\<close> returns the error
  of the write, with the writer as the write left it. The quote in the message is the
  byte \<open>0x27\<close>.
\<close>

definition return_error :: "error option \<times> writer \<Rightarrow> error option go \<times> writer" where
  "return_error r = (Returns (fst r), snd r)"

definition handleClientHandshakePacket ::
  "bytes \<Rightarrow> writer \<Rightarrow> bytes \<Rightarrow> byte \<Rightarrow> error option go \<times> writer" where
  "handleClientHandshakePacket payload w scramble sequence =
     (if length payload < 32 then (Returns (Some ErrInvalidHandshake), w)
      else (case subslice payload 4 8 of
        Panic \<Rightarrow> (Panic, w)
      | Returns maxPacket \<Rightarrow>
      (let pos = 36 in
       case subslice_from payload pos of
         Panic \<Rightarrow> (Panic, w)
       | Returns data \<Rightarrow>
       (case ReadNullTerminatedString data of
          Inl err \<Rightarrow> (Returns (Some (Wrapped ''parse username'' err)), w)
        | Inr (username, n) \<Rightarrow>
        (let pos = pos + int n in
         case subslice_from payload pos of
           Panic \<Rightarrow> (Panic, w)
         | Returns data \<Rightarrow>
         (case ReadLengthEncodedInt data of
            Inl err \<Rightarrow> (Returns (Some (Wrapped ''parse auth len'' err)), w)
          | Inr (authLen, authSize) \<Rightarrow>
          (let pos = pos + int authSize in
           if int_add pos (sint authLen) > int (length payload)
           then (Returns (Some ErrInvalidPacket), w)
           else (case subslice payload pos (int_add pos (sint authLen)) of
             Panic \<Rightarrow> (Panic, w)
           | Returns authResp \<Rightarrow>
           (case verifyMySQLNativePassword authResp (lit ''password'') scramble of
              Panic \<Rightarrow> (Panic, w)
            | Returns ok \<Rightarrow>
              if \<not> ok then
                (let errPkt = NewErrPacket 1045 (lit ''28000'')
                                (lit ''Access denied for user '' @ [0x27] @ username @ [0x27])
                 in return_error (WritePacket w (sequence + 1) errPkt))
              else
                (let okPkt = NewOKPacket 0 0 0
                 in return_error (WritePacket w (sequence + 1) okPkt)))))))))))"

text \<open>
  \<open>HandleHandshake(r io.Reader, w io.Writer, scramble []byte, sequence uint8) error\<close>
  reads one packet and hands its payload and its own sequence number on; the parameter
  \<open>sequence\<close> is not used.
\<close>

definition HandleHandshake ::
  "reader \<Rightarrow> writer \<Rightarrow> bytes \<Rightarrow> byte \<Rightarrow> (error option go \<times> writer) \<times> reader" where
  "HandleHandshake r w scramble sequence =
     (case ReadPacket r of
        (Inl err, r') \<Rightarrow> ((Returns (Some (Wrapped ''read handshake'' err)), w), r')
      | (Inr pkt, r') \<Rightarrow>
          (handleClientHandshakePacket (Payload pkt) w scramble (Sequence pkt), r'))"

text \<open>
  \<open>SendHandshake(w io.Writer) ([]byte, error)\<close>. The three calls of \<open>rand.Read\<close> fill
  4, 8 and 12 bytes from the random source and never fail; the source is the parameter
  \<open>rnd\<close>, the stream of bytes it yields.
\<close>

definition capabilities :: uint32 where
  "capabilities = 0x00000001 OR 0x00000002 OR 0x00000004 OR 0x00000008 OR 0x00000200
                    OR 0x00002000 OR 0x00008000 OR 0x00080000"

definition SendHandshake :: "writer \<Rightarrow> (nat \<Rightarrow> byte) \<Rightarrow> (error + bytes) \<times> writer" where
  "SendHandshake w rnd =
     (let connID = map rnd [0..<4];
          scramblePart1 = map rnd [4..<12];
          scramblePart2 = map rnd [12..<24];
          buf = [10] @ lit ''metal-db-proxy-1.0'' @ [0] @ connID @ scramblePart1 @ [0x00]
                @ le16 (ucast capabilities) @ [0x21] @ le16 0x0002
                @ le16 (ucast (drop_bit 16 capabilities)) @ [21] @ replicate 10 0
                @ scramblePart2 @ [0] @ lit ''mysql_native_password'' @ [0]
      in case WritePacket w 0 buf of
           (Some err, w') \<Rightarrow> (Inl err, w')
         | (None, w') \<Rightarrow> (Inr (take 8 scramblePart1 @ take 12 scramblePart2), w'))"

text \<open>The bytes of the greeting packet that \<open>SendHandshake\<close> writes into a fresh buffer.\<close>

definition greeting :: "(nat \<Rightarrow> byte) \<Rightarrow> bytes" where
  "greeting rnd = written (snd (SendHandshake empty_buffer rnd))"

section \<open>Session loop\<close>

text \<open>
  \<open>err.Error()\<close>: the text of an error. \<open>%d\<close> prints a number in decimal and
  \<open>%w\<close> prints the text of the wrapped error. The text of a write error is the
  transport's own; the package never puts it into a packet.
\<close>

fun decimal :: "nat \<Rightarrow> bytes" where
  "decimal n = (if n < 10 then [of_nat (48 + n)] else decimal (n div 10) @ [of_nat (48 + n mod 10)])"

declare decimal.simps [simp del]

fun err_Error :: "error \<Rightarrow> bytes" where
  "err_Error ErrInvalidPacket = lit ''invalid packet''"
| "err_Error ErrInvalidHandshake = lit ''invalid handshake''"
| "err_Error ErrAuthFailed = lit ''authentication failed''"
| "err_Error EOF = lit ''EOF''"
| "err_Error ErrUnexpectedEOF = lit ''unexpected EOF''"
| "err_Error ErrWrite = lit ''write error''"
| "err_Error (PayloadTooLarge n) = lit ''payload too large: '' @ decimal n"
| "err_Error (UnsupportedCommand cmd) = lit ''unsupported command: '' @ decimal (unat cmd)"
| "err_Error (Wrapped prefix err) = lit prefix @ lit '': '' @ err_Error err"

text \<open>\<open>errors.Is(err, target)\<close> follows the chain of wrapped errors.\<close>

fun errors_Is :: "error \<Rightarrow> error \<Rightarrow> bool" where
  "errors_Is (Wrapped prefix err) target = (Wrapped prefix err = target \<or> errors_Is err target)"
| "errors_Is err target = (err = target)"

definition COM_QUIT :: byte where "COM_QUIT = 0x01"
definition COM_INIT_DB :: byte where "COM_INIT_DB = 0x02"
definition COM_QUERY :: byte where "COM_QUERY = 0x03"

text \<open>
  \<open>type Connection struct\<close>. The field \<open>conn\<close> is the transport: the bytes the client
  still sends (\<open>conn_in\<close>), the writer towards the client (\<open>conn_out\<close>) and whether
  \<open>Close\<close> was called. The \<open>logger\<close> is the list of the messages logged at level
  Info and above, oldest first (a \<open>Debug\<close> message is below the level of the logger).
  The field \<open>connected\<close>, a time stamp, is never read.
\<close>

record Connection =
  conn_in :: reader
  conn_out :: writer
  conn_closed :: bool
  logger :: "string list"
  sequence :: byte
  username :: bytes

definition logf :: "string \<Rightarrow> Connection \<Rightarrow> Connection" where
  "logf msg c = c\<lparr>logger := logger c @ [msg]\<rparr>"

definition NewConnection :: "reader \<Rightarrow> writer \<Rightarrow> Connection" where
  "NewConnection r w =
     \<lparr>conn_in = r, conn_out = w, conn_closed = False, logger = [], sequence = 0,
      username = []\<rparr>"

text \<open>
  \<open>executeQuery\<close> and \<open>handleCommand\<close> return \<open>([]byte, error)\<close>: the response
  (\<open>None\<close> for the nil slice) and the error (\<open>None\<close> for \<open>nil\<close>).
\<close>

definition executeQuery :: "Connection \<Rightarrow> bytes \<Rightarrow> bytes option \<times> error option" where
  "executeQuery c query = (Some (NewOKPacket 0 0 0), None)"

definition handleCommand ::
  "Connection \<Rightarrow> bytes \<Rightarrow> (bytes option \<times> error option) go \<times> Connection" where
  "handleCommand c payload =
     (case index payload 0 of
        Panic \<Rightarrow> (Panic, c)
      | Returns cmd \<Rightarrow>
        (case subslice_from payload 1 of
           Panic \<Rightarrow> (Panic, c)
         | Returns data \<Rightarrow>
             if cmd = COM_QUIT then
               (Returns (None, Some EOF), logf ''COM_QUIT received'' c)
             else if cmd = COM_INIT_DB then
               (Returns (Some (NewOKPacket 0 0 0), None), logf ''COM_INIT_DB received'' c)
             else if cmd = COM_QUERY then
               (Returns (executeQuery c data), c)
             else
               (Returns (None, Some (UnsupportedCommand cmd)), logf ''unsupported command'' c)))"

text \<open>
  The loop \<open>for { ... }\<close> of \<open>(c *Connection) Handle()\<close>. Every iteration that does
  not return consumes a packet header from the transport, so the loop ends on a stream
  that ends. The result says whether the loop returned or panicked.
\<close>

function session_loop :: "Connection \<Rightarrow> unit go \<times> Connection" where
  "session_loop c =
     (case ReadPacket (conn_in c) of
        (Inl err, r') \<Rightarrow>
          (if errors_Is err EOF
           then (Returns (), logf ''client disconnected (EOF)'' (c\<lparr>conn_in := r'\<rparr>))
           else (Returns (), logf ''error reading packet'' (c\<lparr>conn_in := r'\<rparr>)))
      | (Inr pkt, r') \<Rightarrow>
          if length (Payload pkt) = 0 then session_loop (c\<lparr>conn_in := r'\<rparr>)
          else
            (case handleCommand (c\<lparr>conn_in := r'\<rparr>) (Payload pkt) of
               (Panic, c') \<Rightarrow> (Panic, c')
             | (Returns (resp, Some err), c') \<Rightarrow>
                 (let errPkt = NewErrPacket 1064 (lit ''42000'') (err_Error err)
                  in case WritePacket (conn_out c') (Sequence pkt + 1) errPkt of
                       (Some werr, w') \<Rightarrow>
                         (Returns (), logf ''failed to write error packet'' (c'\<lparr>conn_out := w'\<rparr>))
                     | (None, w') \<Rightarrow> session_loop (c'\<lparr>conn_out := w'\<rparr>))
             | (Returns (None, None), c') \<Rightarrow> session_loop c'
             | (Returns (Some resp, None), c') \<Rightarrow>
                 (case WritePacket (conn_out c') (Sequence pkt + 1) resp of
                    (Some err, w') \<Rightarrow>
                      (Returns (), logf ''failed to write response packet'' (c'\<lparr>conn_out := w'\<rparr>))
                  | (None, w') \<Rightarrow> session_loop (c'\<lparr>conn_out := w'\<rparr>))))"
  by pat_completeness auto
termination
proof (relation "measure (\<lambda>c. length (conn_in c))", goal_cases)
  case 1
  show ?case by simp
next
  have shorter: "length r' < length r" if "(Inr pkt, r') = ReadPacket r" for pkt r' r
    using that
    by (auto simp add: ReadPacket_def ReadFull_def Let_def
          split: prod.splits sum.splits if_splits)
  have same: "conn_in c' = conn_in c" if "(res, c') = handleCommand c p" for res c' c p
    using that by (auto simp add: handleCommand_def logf_def split: go.splits if_splits)
  {
    case 2
    then show ?case by (auto dest!: shorter)
  next
    case 3
    then show ?case by (auto dest!: shorter same)
  next
    case 4
    then show ?case by (auto dest!: shorter same)
  next
    case 5
    then show ?case by (auto dest!: shorter same)
  next
    case 6
    then show ?case by (auto dest!: shorter same)
  }
qed

declare session_loop.simps [simp del]

text \<open>
  \<open>(c *Connection) Handle()\<close>. The deferred function runs when the body returns and
  when it panics: it logs a recovered panic, closes the transport and logs the end.
\<close>

definition Handle_body :: "(nat \<Rightarrow> byte) \<Rightarrow> Connection \<Rightarrow> unit go \<times> Connection" where
  "Handle_body rnd c0 =
     (let c = logf ''new connection'' c0
      in case SendHandshake (conn_out c) rnd of
           (Inl err, w') \<Rightarrow> (Returns (), logf ''failed to send handshake'' (c\<lparr>conn_out := w'\<rparr>))
         | (Inr scramble, w') \<Rightarrow>
             (let c = c\<lparr>conn_out := w', sequence := 1\<rparr>
              in case HandleHandshake (conn_in c) (conn_out c) scramble (sequence c) of
                   ((Panic, w''), r') \<Rightarrow> (Panic, c\<lparr>conn_in := r', conn_out := w''\<rparr>)
                 | ((Returns (Some err), w''), r') \<Rightarrow>
                     (Returns (), logf ''handshake/auth failed'' (c\<lparr>conn_in := r', conn_out := w''\<rparr>))
                 | ((Returns None, w''), r') \<Rightarrow>
                     session_loop (logf ''client authenticated'' (c\<lparr>conn_in := r', conn_out := w''\<rparr>))))"

definition Connection_Handle :: "(nat \<Rightarrow> byte) \<Rightarrow> Connection \<Rightarrow> Connection" where
  "Connection_Handle rnd c0 =
     (case Handle_body rnd c0 of
        (Panic, c) \<Rightarrow>
          logf ''connection closed'' ((logf ''panic in connection'' c)\<lparr>conn_closed := True\<rparr>)
      | (Returns u, c) \<Rightarrow> logf ''connection closed'' (c\<lparr>conn_closed := True\<rparr>))"

text \<open>\<open>Handle(conn net.Conn)\<close> is \<open>NewConnection(conn).Handle()\<close>.\<close>

definition Handle :: "(nat \<Rightarrow> byte) \<Rightarrow> reader \<Rightarrow> writer \<Rightarrow> Connection" where
  "Handle rnd r w = Connection_Handle rnd (NewConnection r w)"

section \<open>Notions of the specification\<close>

text \<open>
  The width that the specification calls minimal for a value: 1 byte below 251, the
  3-byte form below \<open>2^16\<close>, the 4-byte form below \<open>2^24\<close>, the 9-byte form otherwise;
  and the first byte of that form (the value itself, \<open>0xFC\<close>, \<open>0xFD\<close>, \<open>0xFE\<close>).
\<close>

definition spec_minimal_width :: "uint64 \<Rightarrow> nat" where
  "spec_minimal_width v =
     (if v < 251 then 1 else if v < 2 ^ 16 then 3 else if v < 2 ^ 24 then 4 else 9)"

definition spec_first_byte :: "uint64 \<Rightarrow> byte" where
  "spec_first_byte v =
     (if v < 251 then ucast v else if v < 2 ^ 16 then 0xFC
      else if v < 2 ^ 24 then 0xFD else 0xFE)"

text \<open>The number that a sequence of bytes denotes in little-endian order.\<close>

fun le_value :: "bytes \<Rightarrow> nat" where
  "le_value [] = 0"
| "le_value (b # bs) = unat b + 256 * le_value bs"

text \<open>
  The response that the specification expects from the client: with
  \<open>stage1 = HASH(password)\<close>, \<open>stage2 = HASH(stage1)\<close> and
  \<open>candidate = HASH(scramble ++ stage2)\<close> it is \<open>candidate XOR stage1\<close>, byte by
  byte.
\<close>

definition spec_expected_response :: "bytes \<Rightarrow> bytes \<Rightarrow> bytes" where
  "spec_expected_response password scramble =
     map2 (XOR) (sha1 (scramble @ sha1 (sha1 password))) (sha1 password)"

text \<open>
  The client handshake response of the specification's wire format:
  \<open>capability_flags:4 | max_packet_size:4 | charset:1 | reserved:23 | username:cstring |
  auth_response_len:length-encoded-int | auth_response\<close>, without optional trailing
  fields. The user name begins at offset 32 of the payload.
\<close>

definition le32 :: "uint32 \<Rightarrow> bytes" where
  "le32 v = [ucast v, ucast (drop_bit 8 v), ucast (drop_bit 16 v), ucast (drop_bit 24 v)]"

definition spec_handshake_response :: "uint32 \<Rightarrow> uint32 \<Rightarrow> byte \<Rightarrow> bytes \<Rightarrow> bytes \<Rightarrow> bytes" where
  "spec_handshake_response caps max_packet charset user auth =
     le32 caps @ le32 max_packet @ [charset] @ replicate 23 0 @ user @ [0]
       @ lengthEncode (of_nat (length auth)) @ auth"

text \<open>
  The ERR packet of a refused login: code 1045, SQL state \<open>28000\<close> and the message
  that embeds a user name between quotes.
\<close>

definition access_denied :: "bytes \<Rightarrow> bytes" where
  "access_denied user =
     NewErrPacket 1045 (lit ''28000'') (lit ''Access denied for user '' @ [0x27] @ user @ [0x27])"

text \<open>The scramble of the package's test, twenty bytes \<open>0x01\<close>.\<close>

definition test_scramble :: bytes where
  "test_scramble = replicate 20 0x01"

section \<open>Bytes of a word\<close>

lemma bit_above: "(n::'a::len word) < 2 ^ k \<Longrightarrow> k \<le> i \<Longrightarrow> \<not> bit n i"
proof -
  assume a: "n < 2 ^ k" and b: "k \<le> i"
  have "take_bit k n = n" using less_mask_eq [OF a] by (simp add: take_bit_eq_mask)
  then have "bit n i = bit (take_bit k n) i" by simp
  then show ?thesis using b by (simp add: bit_take_bit_iff)
qed

lemma bit_byte0: "bit (ucast (ucast (n::uint64) :: byte) :: uint64) i = (i < 8 \<and> bit n i)"
  by (auto simp add: bit_simps dest: bit_imp_le_length)

lemma bit_byteK:
  "bit (push_bit k (ucast (ucast (drop_bit k (n::uint64)) :: byte)) :: uint64) i
     = (k \<le> i \<and> i < k + 8 \<and> bit n i)"
proof (cases "k \<le> i")
  case True
  then obtain j where j: "i = k + j" using le_Suc_ex by blast
  show ?thesis unfolding j by (auto simp add: bit_simps dest: bit_imp_le_length)
next
  case False
  then show ?thesis by (simp add: bit_simps)
qed

lemma bytes_1: "n < 251 \<Longrightarrow> (ucast (ucast (n::uint64) :: byte) :: uint64) = n"
proof (rule bit_word_eqI)
  fix i assume "n < 251" "i < LENGTH(64)"
  then have "n < 2 ^ 8" by (simp add: word_less_nat_alt)
  then have "8 \<le> i \<longrightarrow> \<not> bit n i" using bit_above by blast
  then show "bit (ucast (ucast n :: byte) :: uint64) i = bit n i"
    by (cases "8 \<le> i") (simp_all add: bit_byte0)
qed

lemma byte_below_FB: "(n::uint64) < 251 \<Longrightarrow> (ucast n :: byte) < 0xFB"
  by (simp add: word_less_nat_alt unsigned_ucast_eq take_bit_nat_eq_self)

lemma bytes_2:
  "(n::uint64) < 2 ^ 16 \<Longrightarrow>
     ucast (ucast n :: byte) OR push_bit 8 (ucast (ucast (drop_bit 8 n) :: byte)) = n"
proof (rule bit_word_eqI)
  fix i assume "n < 2 ^ 16" "i < LENGTH(64)"
  then have hi: "16 \<le> i \<longrightarrow> \<not> bit n i" using bit_above by blast
  consider "i < 8" | "8 \<le> i \<and> i < 16" | "16 \<le> i" by linarith
  then show "bit (ucast (ucast n :: byte)
                  OR push_bit 8 (ucast (ucast (drop_bit 8 n) :: byte)) :: uint64) i = bit n i"
    using hi by cases (simp_all add: bit_or_iff bit_byte0 bit_byteK)
qed

lemma bytes_3:
  "(n::uint64) < 2 ^ 24 \<Longrightarrow>
     ucast (ucast n :: byte) OR push_bit 8 (ucast (ucast (drop_bit 8 n) :: byte))
       OR push_bit 16 (ucast (ucast (drop_bit 16 n) :: byte)) = n"
proof (rule bit_word_eqI)
  fix i assume "n < 2 ^ 24" "i < LENGTH(64)"
  then have hi: "24 \<le> i \<longrightarrow> \<not> bit n i" using bit_above by blast
  consider "i < 8" | "8 \<le> i \<and> i < 16" | "16 \<le> i \<and> i < 24" | "24 \<le> i" by linarith
  then show "bit (ucast (ucast n :: byte) OR push_bit 8 (ucast (ucast (drop_bit 8 n) :: byte))
      OR push_bit 16 (ucast (ucast (drop_bit 16 n) :: byte)) :: uint64) i = bit n i"
    using hi by cases (simp_all add: bit_or_iff bit_byte0 bit_byteK)
qed

lemma bytes_8:
  "ucast (ucast n :: byte) OR push_bit 8 (ucast (ucast (drop_bit 8 n) :: byte))
     OR push_bit 16 (ucast (ucast (drop_bit 16 n) :: byte))
     OR push_bit 24 (ucast (ucast (drop_bit 24 n) :: byte))
     OR push_bit 32 (ucast (ucast (drop_bit 32 n) :: byte))
     OR push_bit 40 (ucast (ucast (drop_bit 40 n) :: byte))
     OR push_bit 48 (ucast (ucast (drop_bit 48 n) :: byte))
     OR push_bit 56 (ucast (ucast (drop_bit 56 n) :: byte)) = (n::uint64)"
proof (rule bit_word_eqI)
  fix i assume "i < LENGTH(64)"
  then have "i < 64" by simp
  then consider "i < 8" | "8 \<le> i \<and> i < 16" | "16 \<le> i \<and> i < 24" | "24 \<le> i \<and> i < 32"
    | "32 \<le> i \<and> i < 40" | "40 \<le> i \<and> i < 48" | "48 \<le> i \<and> i < 56" | "56 \<le> i \<and> i < 64"
    by linarith
  then show "bit (ucast (ucast n :: byte) OR push_bit 8 (ucast (ucast (drop_bit 8 n) :: byte))
     OR push_bit 16 (ucast (ucast (drop_bit 16 n) :: byte))
     OR push_bit 24 (ucast (ucast (drop_bit 24 n) :: byte))
     OR push_bit 32 (ucast (ucast (drop_bit 32 n) :: byte))
     OR push_bit 40 (ucast (ucast (drop_bit 40 n) :: byte))
     OR push_bit 48 (ucast (ucast (drop_bit 48 n) :: byte))
     OR push_bit 56 (ucast (ucast (drop_bit 56 n) :: byte)) :: uint64) i = bit n i"
    by cases (simp_all add: bit_or_iff bit_byte0 bit_byteK)
qed

section \<open>Length-encoded integers\<close>

text \<open>
  The cases of the package's tests \<open>TestReadLengthEncodedInt\<close>, \<open>TestOKPacketFormat\<close>
  and \<open>TestErrPacketFormat\<close>, malformed inputs, and the encodings at the bounds of the
  four forms.
\<close>

lemma lengthEncode_boundaries:
  "lengthEncode 250 = [0xFA]"
  "lengthEncode 251 = [0xFC, 0xFB, 0x00]"
  "lengthEncode 65535 = [0xFC, 0xFF, 0xFF]"
  "lengthEncode 65536 = [0xFD, 0x00, 0x00, 0x01]"
  "lengthEncode 16777215 = [0xFD, 0xFF, 0xFF, 0xFF]"
  "lengthEncode 16777216 = [0xFE, 0x00, 0x00, 0x00, 0x01, 0x00, 0x00, 0x00, 0x00]"
  "lengthEncode 0xFFFFFFFFFFFFFFFF = [0xFE, 0xFF, 0xFF, 0xFF, 0xFF, 0xFF, 0xFF, 0xFF, 0xFF]"
  by (simp_all add: lengthEncode_def)

lemma ReadLengthEncodedInt_examples:
  "ReadLengthEncodedInt [0xFA] = Inr (0xFA, 1)"
  "ReadLengthEncodedInt [0xFC, 0x01, 0x02] = Inr (0x0201, 3)"
  "ReadLengthEncodedInt [0xFD, 0x01, 0x02, 0x03] = Inr (0x030201, 4)"
  "ReadLengthEncodedInt [0xFE, 0x01, 0, 0, 0, 0, 0, 0, 0] = Inr (1, 9)"
  "ReadLengthEncodedInt [0xFB] = Inr (0, 1)"
  "ReadLengthEncodedInt [0xFC, 0x01] = Inl ErrInvalidPacket"
  "ReadLengthEncodedInt [] = Inl ErrInvalidPacket"
  "ReadLengthEncodedInt [0xFF] = Inl ErrInvalidPacket"
  by (simp_all add: ReadLengthEncodedInt_def)

lemma packet_examples:
  "NewOKPacket 1 2 0x0002 = [0x00, 0x01, 0x02, 0x02, 0x00, 0x00, 0x00]"
  "take 4 (NewErrPacket 1045 (lit ''28000'') (lit ''Access denied'')) = [0xFF, 0x15, 0x04, 0x23]"
  by (simp_all add: NewOKPacket_def NewErrPacket_def lengthEncode_def le16_def)

lemma length_lengthEncode: "length (lengthEncode v) = spec_minimal_width v"
  by (simp add: lengthEncode_def spec_minimal_width_def)

lemma hd_lengthEncode: "hd (lengthEncode v) = spec_first_byte v"
  by (simp add: lengthEncode_def spec_first_byte_def)

lemma Read_lengthEncode_append:
  "ReadLengthEncodedInt (lengthEncode v @ rest) = Inr (v, spec_minimal_width v)"
proof -
  consider "v < 251" | "\<not> v < 251" "v < 2 ^ 16" | "\<not> v < 251" "\<not> v < 2 ^ 16" "v < 2 ^ 24"
    | "\<not> v < 251" "\<not> v < 2 ^ 16" "\<not> v < 2 ^ 24" by blast
  then show ?thesis
  proof cases
    case 1
    then show ?thesis
      by (simp add: lengthEncode_def ReadLengthEncodedInt_def spec_minimal_width_def
            bytes_1 byte_below_FB)
  next
    case 2
    then show ?thesis
      by (simp add: lengthEncode_def ReadLengthEncodedInt_def spec_minimal_width_def bytes_2)
  next
    case 3
    then show ?thesis
      by (simp add: lengthEncode_def ReadLengthEncodedInt_def spec_minimal_width_def bytes_3)
  next
    case 4
    then show ?thesis
      by (simp add: lengthEncode_def ReadLengthEncodedInt_def spec_minimal_width_def bytes_8)
  qed
qed

text \<open>
  Claim C7. For every unsigned 64-bit value \<open>v\<close>, \<open>lengthEncode v\<close> (the
  \<open>WriteLengthEncodedInt\<close> of the specification) has the minimal width for the magnitude
  of \<open>v\<close> and starts with the byte of that form (the value itself below 251, then
  \<open>0xFC\<close>, \<open>0xFD\<close>, \<open>0xFE\<close>), and \<open>ReadLengthEncodedInt\<close> applied to it returns
  \<open>v\<close> together with that width.
\<close>

theorem lengthEncode_minimal_roundtrip:
  "length (lengthEncode v) = spec_minimal_width v
   \<and> hd (lengthEncode v) = spec_first_byte v
   \<and> ReadLengthEncodedInt (lengthEncode v) = Inr (v, spec_minimal_width v)"
  using Read_lengthEncode_append [of v "[]"]
  by (simp add: length_lengthEncode hd_lengthEncode)

text \<open>
  Claim C6, as amended. On any byte sequence whose first byte is \<open>0xFB\<close>,
  \<open>ReadLengthEncodedInt\<close> succeeds, consumes exactly 1 byte and yields the value 0.
  It returns no side flag: the result is the one it returns on the same sequence with
  the first byte replaced by the integer zero \<open>0x00\<close>.
\<close>

theorem ReadLengthEncodedInt_null:
  "ReadLengthEncodedInt (0xFB # rest) = Inr (0, 1)
   \<and> ReadLengthEncodedInt (0xFB # rest) = ReadLengthEncodedInt (0x00 # rest)"
  by (simp add: ReadLengthEncodedInt_def)

text \<open>
  Claim C6 as stated fails: the result for the NULL sentinel \<open>0xFB\<close> alone and the
  result for the encoded integer zero are equal, so no caller can tell them apart.
\<close>

theorem ReadLengthEncodedInt_null_indistinguishable:
  "ReadLengthEncodedInt [0xFB] = ReadLengthEncodedInt [0x00]"
  by (simp add: ReadLengthEncodedInt_def)

section \<open>Packet codec: framing and parsing\<close>

lemma bit_nat_above: "(n::nat) < 2 ^ k \<Longrightarrow> k \<le> i \<Longrightarrow> \<not> bit n i"
proof -
  assume a: "n < 2 ^ k" and b: "k \<le> i"
  have "(2::nat) ^ k \<le> 2 ^ i" using b by simp
  then have "n < 2 ^ i" using a by linarith
  then show ?thesis by (simp add: bit_iff_odd)
qed

lemma bit_len_byteK:
  "bit (push_bit k (ucast (of_nat (drop_bit k (n::nat)) :: byte)) :: uint32) i
     = (k \<le> i \<and> i < k + 8 \<and> i < 32 \<and> bit n i)"
proof (cases "k \<le> i")
  case True
  then obtain j where j: "i = k + j" using le_Suc_ex by blast
  show ?thesis unfolding j by (auto simp add: bit_simps)
next
  case False
  then show ?thesis by (simp add: bit_simps)
qed

lemma bit_len_byte0:
  "bit (ucast (of_nat (n::nat) :: byte) :: uint32) i = (i < 8 \<and> bit n i)"
  by (auto simp add: bit_simps)

lemma header_length:
  assumes "n \<le> 0xFFFFFF"
  shows "(ucast (of_nat n :: byte) OR push_bit 8 (ucast (of_nat (drop_bit 8 n) :: byte))
           OR push_bit 16 (ucast (of_nat (drop_bit 16 n) :: byte)) :: uint32) = of_nat n"
proof (rule bit_word_eqI)
  fix i assume "i < LENGTH(32)"
  then have i: "i < 32" by simp
  have "n < 2 ^ 24" using assms by simp
  then have hi: "24 \<le> i \<longrightarrow> \<not> bit n i" using bit_nat_above by blast
  consider "i < 8" | "8 \<le> i \<and> i < 16" | "16 \<le> i \<and> i < 24" | "24 \<le> i" by linarith
  then show "bit (ucast (of_nat n :: byte) OR push_bit 8 (ucast (of_nat (drop_bit 8 n) :: byte))
           OR push_bit 16 (ucast (of_nat (drop_bit 16 n) :: byte)) :: uint32) i
        = bit (of_nat n :: uint32) i"
    using hi i by cases (simp_all add: bit_or_iff bit_len_byte0 bit_len_byteK bit_of_nat_iff)
qed

lemma unat_len32: "n \<le> 0xFFFFFF \<Longrightarrow> unat (of_nat n :: uint32) = n"
  by (simp add: unat_of_nat)

lemma len32_zero:
  assumes "n \<le> 0xFFFFFF"
  shows "((of_nat n :: uint32) = 0) = (n = 0)"
proof
  assume "(of_nat n :: uint32) = 0"
  then have "unat (of_nat n :: uint32) = 0" by simp
  then show "n = 0" using unat_len32 [OF assms] by simp
next
  assume "n = 0"
  then show "(of_nat n :: uint32) = 0" by simp
qed

lemma ReadPacket_frame:
  assumes "length payload \<le> 0xFFFFFF"
  shows "ReadPacket (packet_header seq payload @ payload @ rest)
           = (Inr \<lparr>Length = of_nat (length payload), Sequence = seq, Payload = payload\<rparr>, rest)"
proof -
  have hdr: "ReadFull (packet_header seq payload @ payload @ rest) 4
               = (Inr (packet_header seq payload), payload @ rest)"
    by (simp add: ReadFull_def packet_header_def)
  have len: "(ucast (packet_header seq payload ! 0)
               OR push_bit 8 (ucast (packet_header seq payload ! 1))
               OR push_bit 16 (ucast (packet_header seq payload ! 2)) :: uint32)
             = of_nat (length payload)"
    using header_length [OF assms] by (simp add: packet_header_def)
  have sq: "packet_header seq payload ! 3 = seq"
    by (simp add: packet_header_def)
  have body: "ReadFull (payload @ rest) (length payload) = (Inr payload, rest)"
    by (simp add: ReadFull_def)
  have red: "ReadPacket (packet_header seq payload @ payload @ rest) =
      (if (of_nat (length payload) :: uint32) = 0
       then (Inr \<lparr>Length = 0, Sequence = seq, Payload = []\<rparr>, payload @ rest)
       else (case ReadFull (payload @ rest) (unat (of_nat (length payload) :: uint32)) of
               (Inl err, r'') \<Rightarrow> (Inl (Wrapped ''read payload'' err), r'')
             | (Inr p, r'') \<Rightarrow>
                 (Inr \<lparr>Length = of_nat (length payload), Sequence = seq, Payload = p\<rparr>, r'')))"
    unfolding ReadPacket_def hdr by (simp only: prod.case sum.case Let_def len sq)
  show ?thesis
  proof (cases "payload = []")
    case True
    then show ?thesis unfolding red by simp
  next
    case False
    then have nz: "(of_nat (length payload) :: uint32) \<noteq> 0"
      using len32_zero [OF assms] by simp
    show ?thesis unfolding red by (simp add: nz unat_len32 [OF assms] body)
  qed
qed

lemma le_value_header:
  assumes "length payload \<le> 0xFFFFFF"
  shows "le_value (take 3 (packet_header seq payload)) = length payload"
proof -
  define n where "n = length payload"
  have n: "n < 256 * 65536" using assms by (simp add: n_def)
  have hi: "n div 65536 mod 256 = n div 65536"
    using n by (simp add: less_mult_imp_div_less)
  have split: "n div 65536 = n div 256 div 256"
    by (simp add: div_mult2_eq)
  have mid: "n div 256 mod 256 + 256 * (n div 256 div 256) = n div 256"
    by (rule mod_mult_div_eq)
  have top: "n div 65536 mod 256 = n div 256 div 256"
    using hi split by simp
  have "n mod 256 + 256 * (n div 256 mod 256 + 256 * (n div 65536 mod 256)) = n"
    unfolding top mid by (rule mod_mult_div_eq)
  then show ?thesis
    by (simp add: packet_header_def unat_of_nat drop_bit_eq_div hi flip: n_def)
qed

text \<open>
  Claim C9. For a payload strictly longer than \<open>0xFFFFFF\<close> bytes \<open>WritePacket\<close>
  fails with \<open>PayloadTooLarge\<close> and leaves the writer as it was: nothing is written,
  nothing is truncated. For a payload of at most \<open>0xFFFFFF\<close> bytes it hands the
  writer, in one \<open>Write\<close>, exactly a 4-byte header followed by the payload; the first
  three header bytes are the payload length in little-endian order and the fourth is the
  sequence byte; on a writer that accepts the write the output grows by exactly these
  bytes and the result is \<open>nil\<close>.
\<close>

theorem WritePacket_rejects_or_frames:
  "(0xFFFFFF < length payload \<longrightarrow>
      WritePacket w seq payload = (Some (PayloadTooLarge (length payload)), w))
   \<and> (length payload \<le> 0xFFFFFF \<longrightarrow>
        WritePacket w seq payload = Write w (packet_header seq payload @ payload)
        \<and> length (packet_header seq payload) = 4
        \<and> le_value (take 3 (packet_header seq payload)) = length payload
        \<and> packet_header seq payload ! 3 = seq
        \<and> (\<not> broken w \<longrightarrow>
             WritePacket w seq payload
               = (None, w\<lparr>written := written w @ packet_header seq payload @ payload\<rparr>)))"
proof (intro conjI impI)
  assume "0xFFFFFF < length payload"
  then show "WritePacket w seq payload = (Some (PayloadTooLarge (length payload)), w)"
    by (simp add: WritePacket_def)
next
  assume le: "length payload \<le> 0xFFFFFF"
  then show "WritePacket w seq payload = Write w (packet_header seq payload @ payload)"
    by (simp add: WritePacket_def)
  show "length (packet_header seq payload) = 4" by (simp add: packet_header_def)
  show "le_value (take 3 (packet_header seq payload)) = length payload"
    using le by (rule le_value_header)
  show "packet_header seq payload ! 3 = seq" by (simp add: packet_header_def)
  assume "\<not> broken w"
  then show "WritePacket w seq payload
               = (None, w\<lparr>written := written w @ packet_header seq payload @ payload\<rparr>)"
    using le by (simp add: WritePacket_def Write_def)
qed

text \<open>
  The two cases at concrete inputs: a payload of \<open>0x1000000\<close> bytes is rejected and
  the buffer stays empty; the payload \<open>hello\<close> with sequence 7 is framed as
  \<open>05 00 00 07\<close> followed by the five bytes.
\<close>

theorem WritePacket_rejects_or_frames_witness:
  "WritePacket empty_buffer 7 (replicate 16777216 0)
     = (Some (PayloadTooLarge (length (replicate 16777216 (0::byte)))), empty_buffer)
   \<and> WritePacket empty_buffer 7 (lit ''hello'')
       = (None, \<lparr>written = [5, 0, 0, 7, 0x68, 0x65, 0x6C, 0x6C, 0x6F], broken = False\<rparr>)"
proof
  have a: "0xFFFFFF < length (replicate 16777216 (0::byte))"
    by (simp only: length_replicate)
  show "WritePacket empty_buffer 7 (replicate 16777216 0)
     = (Some (PayloadTooLarge (length (replicate 16777216 (0::byte)))), empty_buffer)"
    using WritePacket_rejects_or_frames [of "replicate 16777216 0" empty_buffer 7] a
    by blast
next
  have l: "length (lit ''hello'') = 5" by (simp add: lit_def)
  have b: "length (lit ''hello'') \<le> 0xFFFFFF" unfolding l by simp
  have c: "\<not> broken empty_buffer" by (simp add: empty_buffer_def)
  have h: "packet_header 7 (lit ''hello'') = [5, 0, 0, 7]"
    unfolding packet_header_def l by (simp add: drop_bit_eq_div)
  have "WritePacket empty_buffer 7 (lit ''hello'')
          = (None, empty_buffer\<lparr>written := written empty_buffer
                @ packet_header 7 (lit ''hello'') @ lit ''hello''\<rparr>)"
    using WritePacket_rejects_or_frames [of "lit ''hello''" empty_buffer 7] b c by blast
  then show "WritePacket empty_buffer 7 (lit ''hello'')
       = (None, \<lparr>written = [5, 0, 0, 7, 0x68, 0x65, 0x6C, 0x6C, 0x6F], broken = False\<rparr>)"
    unfolding h by (simp add: empty_buffer_def lit_def)
qed

text \<open>
  Claim C8. For every payload of at most \<open>0xFFFFFF\<close> bytes, the empty payload
  included, and every sequence byte, \<open>WritePacket\<close> into a fresh buffer succeeds, and
  \<open>ReadPacket\<close> on the bytes written succeeds, consumes all of them and yields a
  packet with the same sequence number and the same payload bytes.
\<close>

theorem WritePacket_ReadPacket_roundtrip:
  assumes "length payload \<le> 0xFFFFFF"
  shows "fst (WritePacket empty_buffer seq payload) = None
         \<and> ReadPacket (written (snd (WritePacket empty_buffer seq payload)))
             = (Inr \<lparr>Length = of_nat (length payload), Sequence = seq, Payload = payload\<rparr>, [])"
  using assms ReadPacket_frame [OF assms, of seq "[]"]
  by (simp add: WritePacket_def Write_def empty_buffer_def)

text \<open>
  The round trip of the package's test, payload \<open>hello\<close> with sequence 7, and the
  round trip of the empty payload.
\<close>

theorem WritePacket_ReadPacket_roundtrip_witness:
  "length (lit ''hello'') \<le> 0xFFFFFF
   \<and> fst (WritePacket empty_buffer 7 (lit ''hello'')) = None
   \<and> ReadPacket (written (snd (WritePacket empty_buffer 7 (lit ''hello''))))
       = (Inr \<lparr>Length = 5, Sequence = 7, Payload = lit ''hello''\<rparr>, [])
   \<and> ReadPacket (written (snd (WritePacket empty_buffer 0 [])))
       = (Inr \<lparr>Length = 0, Sequence = 0, Payload = []\<rparr>, [])"
proof -
  have l: "length (lit ''hello'') = 5" by (simp add: lit_def)
  have b: "length (lit ''hello'') \<le> 0xFFFFFF" unfolding l by simp
  have e: "length ([] :: bytes) \<le> 0xFFFFFF" by simp
  show ?thesis
    using b WritePacket_ReadPacket_roundtrip [OF b, of 7]
      WritePacket_ReadPacket_roundtrip [OF e, of 0] unfolding l by simp
qed

section \<open>Credential verification\<close>

lemma length_sha1: "length (sha1 m) = 20"
  by (simp add: sha1_def be_bytes_def split: prod.splits)

lemma length_spec_expected_response: "length (spec_expected_response password scramble) = 20"
  by (simp add: spec_expected_response_def length_sha1)

lemma verify_loop_eq:
  assumes "length resp = 20" "length candidate = 20" "length stage1 = 20"
  shows "verify_loop resp candidate stage1 i
           = Returns (drop i resp = map2 (XOR) (drop i candidate) (drop i stage1))"
proof (induction "20 - i" arbitrary: i)
  case 0
  then have "\<not> i < 20" by simp
  then show ?case using assms by (subst verify_loop.simps) simp
next
  case (Suc n)
  then have i: "i < 20" by simp
  have IH: "verify_loop resp candidate stage1 (Suc i)
           = Returns (drop (Suc i) resp = map2 (XOR) (drop (Suc i) candidate) (drop (Suc i) stage1))"
    using Suc.hyps(1) [of "Suc i"] Suc.hyps(2) by simp
  have r: "drop i resp = resp ! i # drop (Suc i) resp"
    using i assms by (simp add: Cons_nth_drop_Suc)
  have c: "drop i candidate = candidate ! i # drop (Suc i) candidate"
    using i assms by (simp add: Cons_nth_drop_Suc)
  have s: "drop i stage1 = stage1 ! i # drop (Suc i) stage1"
    using i assms by (simp add: Cons_nth_drop_Suc)
  show ?case
    by (subst verify_loop.simps) (simp add: i assms index_def IH r c s)
qed

lemma verifyMySQLNativePassword_eq:
  "verifyMySQLNativePassword clientResp password scramble
     = Returns (length clientResp = 20 \<and> 20 \<le> length scramble
                \<and> clientResp = spec_expected_response password scramble)"
proof (cases "length clientResp = 20 \<and> 20 \<le> length scramble")
  case True
  then show ?thesis
    using verify_loop_eq [of clientResp "sha1 (scramble @ sha1 (sha1 password))" "sha1 password" 0]
    by (simp add: verifyMySQLNativePassword_def Let_def length_sha1 spec_expected_response_def)
next
  case False
  then show ?thesis
    by (auto simp add: verifyMySQLNativePassword_def)
qed

text \<open>
  Claim C3. \<open>verifyMySQLNativePassword\<close> never panics. It returns false whenever the
  client response is not exactly 20 bytes or the scramble is shorter than 20 bytes;
  otherwise it returns true exactly when the client response equals
  \<open>candidate XOR stage1\<close> over all 20 bytes, where \<open>stage1\<close> is the hash of the
  password, \<open>stage2\<close> the hash of \<open>stage1\<close> and \<open>candidate\<close> the hash of the
  scramble followed by \<open>stage2\<close>.
\<close>

theorem verify_spec:
  "verifyMySQLNativePassword clientResp password scramble
     = Returns (length clientResp = 20 \<and> 20 \<le> length scramble
                \<and> clientResp = spec_expected_response password scramble)"
  by (rule verifyMySQLNativePassword_eq)

text \<open>
  With the password and the scramble of the package's test: the expected response is
  accepted, an empty response is refused, and nothing is accepted with a scramble of
  19 bytes.
\<close>

theorem verify_spec_witness:
  "verifyMySQLNativePassword (spec_expected_response (lit ''password'') (replicate 20 1))
       (lit ''password'') (replicate 20 1) = Returns True
   \<and> verifyMySQLNativePassword [] (lit ''password'') (replicate 20 1) = Returns False
   \<and> verifyMySQLNativePassword (spec_expected_response (lit ''password'') (replicate 19 1))
       (lit ''password'') (replicate 19 1) = Returns False"
  using verify_spec [of "spec_expected_response (lit ''password'') (replicate 20 1)"
                       "lit ''password''" "replicate 20 1"]
    verify_spec [of "[]" "lit ''password''" "replicate 20 1"]
    verify_spec [of "spec_expected_response (lit ''password'') (replicate 19 1)"
                       "lit ''password''" "replicate 19 1"]
  by (simp add: length_spec_expected_response)

section \<open>Handshake: parsing the client response\<close>

lemma int_add_exact: "- (2 ^ 63) \<le> a + b \<Longrightarrow> a + b < 2 ^ 63 \<Longrightarrow> int_add a b = a + b"
  unfolding int_add_def sint_sbintrunc' by (simp add: signed_take_bit_int_eq_self)

lemma sint_of_nat_small: "n < 2 ^ 63 \<Longrightarrow> sint (of_nat n :: uint64) = int n"
  by (simp add: signed_of_nat signed_take_bit_int_eq_self)

lemma IndexByte_first: "c \<notin> set xs \<Longrightarrow> IndexByte (xs @ c # ys) c = Some (length xs)"
  by (induction xs) auto

lemma ReadNullTerminatedString_first:
  "0 \<notin> set user \<Longrightarrow> ReadNullTerminatedString (user @ 0 # rest) = Inr (user, length user + 1)"
  by (simp add: ReadNullTerminatedString_def IndexByte_first)

lemma subslice_from_append: "lo = int (length xs) \<Longrightarrow> subslice_from (xs @ ys) lo = Returns ys"
  by (simp add: subslice_from_def subslice_def)

lemma subslice_middle:
  "lo = int (length xs) \<Longrightarrow> hi = lo + int (length ys) \<Longrightarrow>
     subslice (xs @ ys @ zs) lo hi = Returns ys"
  by (simp add: subslice_def)

lemma handle_layout:
  assumes pre: "length pre = 36" and user: "0 \<notin> set user"
    and len: "length (pre @ user @ [0] @ lengthEncode (of_nat (length auth)) @ auth @ trailing)
                \<le> 0xFFFFFF"
  shows "handleClientHandshakePacket
           (pre @ user @ [0] @ lengthEncode (of_nat (length auth)) @ auth @ trailing) w scramble seq
     = return_error (WritePacket w (seq + 1)
               (if verifyMySQLNativePassword auth (lit ''password'') scramble = Returns True
                then NewOKPacket 0 0 0 else access_denied user))"
proof -
  define le where "le = lengthEncode (of_nat (length auth))"
  define payload where "payload = pre @ user @ [0] @ le @ auth @ trailing"
  define p1 where "p1 = 36 + int (length user + 1)"
  define p2 where "p2 = p1 + int (length le)"
  have total: "length payload = 36 + length user + 1 + length le + length auth + length trailing"
    by (simp add: payload_def pre)
  have small: "length payload \<le> 0xFFFFFF" using len by (simp add: payload_def le_def)
  have s0: "\<not> length payload < 32" using total by simp
  have s1: "subslice payload 4 8 = Returns (take 4 (drop 4 payload))"
    using total by (simp add: subslice_def)
  have s2: "subslice_from payload 36 = Returns (user @ 0 # le @ auth @ trailing)"
    unfolding payload_def using pre by (simp add: subslice_from_append)
  have r1: "ReadNullTerminatedString (user @ 0 # le @ auth @ trailing)
              = Inr (user, length user + 1)"
    using user by (rule ReadNullTerminatedString_first)
  have s3: "subslice_from payload p1 = Returns (le @ auth @ trailing)"
    using subslice_from_append [of p1 "pre @ user @ [0]" "le @ auth @ trailing"] pre
    by (simp add: payload_def p1_def)
  have r2: "ReadLengthEncodedInt (le @ auth @ trailing) = Inr (of_nat (length auth), length le)"
    unfolding le_def by (simp add: Read_lengthEncode_append length_lengthEncode)
  have si: "sint (of_nat (length auth) :: uint64) = int (length auth)"
    using total small by (intro sint_of_nat_small) simp
  have ia: "int_add p2 (int (length auth)) = p2 + int (length auth)"
    using total small by (intro int_add_exact) (simp_all add: p2_def p1_def)
  have s4a: "\<not> p2 + int (length auth) > int (length payload)"
    using total by (simp add: p2_def p1_def)
  have s4: "subslice payload p2 (p2 + int (length auth)) = Returns auth"
    using subslice_middle [of p2 "pre @ user @ [0] @ le" "p2 + int (length auth)" auth trailing] pre
    by (simp add: payload_def p2_def p1_def)
  obtain ok where v: "verifyMySQLNativePassword auth (lit ''password'') scramble = Returns ok"
    using verifyMySQLNativePassword_eq by blast
  have "handleClientHandshakePacket payload w scramble seq
     = return_error (WritePacket w (seq + 1)
               (if verifyMySQLNativePassword auth (lit ''password'') scramble = Returns True
                then NewOKPacket 0 0 0 else access_denied user))"
    unfolding handleClientHandshakePacket_def
    by (simp only: s0 if_False s1 go.case Let_def s2 r1 sum.case prod.case
          p1_def [symmetric] s3 r2 p2_def [symmetric] si ia s4a s4 v access_denied_def)
       simp
  then show ?thesis by (simp add: payload_def le_def)
qed

lemma ReadNullTerminatedString_size: "ReadNullTerminatedString d = Inr (u, n) \<Longrightarrow> 1 \<le> n"
  by (auto simp add: ReadNullTerminatedString_def split: option.splits)

lemma ReadLengthEncodedInt_size: "ReadLengthEncodedInt d = Inr (v, sz) \<Longrightarrow> 1 \<le> sz"
  by (auto simp add: ReadLengthEncodedInt_def Let_def split: if_splits)

lemma subslice_length:
  "subslice s lo hi = Returns a \<Longrightarrow> int (length a) = hi - lo \<and> hi \<le> int (length s)"
  by (auto simp add: subslice_def split: if_splits)

lemma verify_not_20: "length a \<noteq> 20 \<Longrightarrow> verifyMySQLNativePassword a pw scr = Returns False"
  by (simp add: verifyMySQLNativePassword_def)

lemma short_payload_outcomes:
  assumes "length payload < 58"
  shows "(\<exists>e. handleClientHandshakePacket payload w scr seq = (Returns (Some e), w))
         \<or> handleClientHandshakePacket payload w scr seq = (Panic, w)
         \<or> (\<exists>u. handleClientHandshakePacket payload w scr seq
               = return_error (WritePacket w (seq + 1) (access_denied u)))"
proof -
  have short: False
    if "subslice payload (36 + int n + int sz) hi = Returns a" "Suc 0 \<le> n" "Suc 0 \<le> sz"
      "verifyMySQLNativePassword a pw scr = Returns True"
    for a n sz hi pw
  proof -
    have "int (length a) = hi - (36 + int n + int sz)" "hi \<le> int (length payload)"
      using subslice_length [OF that(1)] by simp_all
    then have "length a \<noteq> 20" using that(2,3) assms by linarith
    then show False using that(4) by (simp add: verify_not_20)
  qed
  show ?thesis
    unfolding handleClientHandshakePacket_def Let_def access_denied_def
    by (auto split: go.splits sum.splits prod.splits
          dest!: ReadNullTerminatedString_size ReadLengthEncodedInt_size
          dest: short)
qed

lemma frame_payload_head: "frame s (b # bs) ! 4 = b"
  by (simp add: frame_def packet_header_def)

lemma WritePacket_empty_buffer:
  "written (snd (WritePacket empty_buffer s p)) = [] \<or>
   written (snd (WritePacket empty_buffer s p)) = frame s p"
  by (simp add: WritePacket_def Write_def empty_buffer_def frame_def)

lemma short_payload_never_ok:
  assumes "length payload < 58"
  shows "written (snd (handleClientHandshakePacket payload empty_buffer scr seq))
           \<noteq> frame (seq + 1) (NewOKPacket 0 0 0)"
proof -
  have ok: "frame (seq + 1) (NewOKPacket 0 0 0) ! 4 = 0"
    by (simp add: NewOKPacket_def frame_payload_head)
  have ne: "frame (seq + 1) (NewOKPacket 0 0 0) \<noteq> []"
    by (simp add: frame_def packet_header_def)
  have den: "frame (seq + 1) (access_denied u) ! 4 = 0xFF" for u
    by (simp add: access_denied_def NewErrPacket_def frame_payload_head)
  have differ: "frame (seq + 1) (access_denied u) \<noteq> frame (seq + 1) (NewOKPacket 0 0 0)" for u
    using ok den [of u] by auto
  from short_payload_outcomes [OF assms, of empty_buffer scr seq]
  show ?thesis
  proof (elim disjE exE)
    fix e
    assume "handleClientHandshakePacket payload empty_buffer scr seq
              = (Returns (Some e), empty_buffer)"
    then show ?thesis using ne by (simp add: empty_buffer_def)
  next
    assume "handleClientHandshakePacket payload empty_buffer scr seq = (Panic, empty_buffer)"
    then show ?thesis using ne by (simp add: empty_buffer_def)
  next
    fix u
    assume "handleClientHandshakePacket payload empty_buffer scr seq
              = return_error (WritePacket empty_buffer (seq + 1) (access_denied u))"
    then show ?thesis
      using WritePacket_empty_buffer [of "seq + 1" "access_denied u"] ne differ [of u]
      by (auto simp add: return_error_def)
  qed
qed

lemma HandleHandshake_frame:
  assumes "length payload \<le> 0xFFFFFF"
  shows "HandleHandshake (frame s payload @ rest) w scr sq
           = (handleClientHandshakePacket payload w scr s, rest)"
  using ReadPacket_frame [OF assms, of s rest]
  by (simp add: HandleHandshake_def frame_def)

lemma length_access_denied: "length (access_denied user) = 34 + length user"
  by (simp add: access_denied_def NewErrPacket_def lit_def)

lemma length_NewOKPacket_0: "length (NewOKPacket 0 0 0) = 7"
  by (simp add: NewOKPacket_def lengthEncode_def le16_def)

text \<open>
  What the code does on a payload in which the user name begins at offset 36, the
  offset it reads from: the orchestrator answers with the OK packet exactly when the
  response is the expected one, with the ERR packet that names the user otherwise,
  under the client's sequence number plus one, and returns \<open>nil\<close> in both cases. The
  user name has no part in the choice.
\<close>

lemma HandleHandshake_layout:
  assumes pre: "length pre = 36" and user: "0 \<notin> set user"
    and len: "length (pre @ user @ [0] @ lengthEncode (of_nat (length auth)) @ auth @ trailing)
                \<le> 0xFFFFFF"
    and w: "\<not> broken w"
  shows "HandleHandshake
           (frame s (pre @ user @ [0] @ lengthEncode (of_nat (length auth)) @ auth @ trailing)
              @ rest) w scramble sq
     = ((Returns None,
         w\<lparr>written := written w @ frame (s + 1)
              (if 20 \<le> length scramble
                  \<and> auth = spec_expected_response (lit ''password'') scramble
               then NewOKPacket 0 0 0 else access_denied user)\<rparr>), rest)"
proof -
  let ?p = "pre @ user @ [0] @ lengthEncode (of_nat (length auth)) @ auth @ trailing"
  let ?ok = "20 \<le> length scramble \<and> auth = spec_expected_response (lit ''password'') scramble"
  have v: "(verifyMySQLNativePassword auth (lit ''password'') scramble = Returns True) = ?ok"
    using length_spec_expected_response [of "lit ''password''" scramble]
    by (auto simp add: verifyMySQLNativePassword_eq)
  have ul: "34 + length user \<le> 0xFFFFFF" using len pre by simp
  have "handleClientHandshakePacket ?p w scramble s
          = return_error (WritePacket w (s + 1)
              (if ?ok then NewOKPacket 0 0 0 else access_denied user))"
    using handle_layout [OF pre user len, of w scramble s] unfolding v .
  also have "\<dots> = (Returns None, w\<lparr>written := written w @ frame (s + 1)
              (if ?ok then NewOKPacket 0 0 0 else access_denied user)\<rparr>)"
    using w ul
    by (simp add: return_error_def WritePacket_def Write_def frame_def length_access_denied
          length_NewOKPacket_0)
  finally show ?thesis
    using HandleHandshake_frame [OF len, of s rest w scramble sq] by simp
qed

text \<open>
  On the specification's layout with a user name of three bytes and a 20-byte response
  without a zero byte, no user name is found.
\<close>

lemma IndexByte_none: "c \<notin> set xs \<Longrightarrow> IndexByte xs c = None"
  by (induction xs) auto

lemma handshake_bob_parse_error:
  "handleClientHandshakePacket
      (spec_handshake_response capabilities 0x01000000 0x21 (lit ''bob'') (replicate 20 0x01))
      w scramble sq
     = (Returns (Some (Wrapped ''parse username'' ErrInvalidPacket)), w)"
  by (simp add: handleClientHandshakePacket_def spec_handshake_response_def le32_def lit_def
        lengthEncode_def subslice_def subslice_from_def ReadNullTerminatedString_def
        IndexByte_none)

lemma width_20:
  "spec_minimal_width 20 = 1" "lengthEncode 20 = [20]"
  "spec_minimal_width 0 = 1" "lengthEncode 0 = [0]"
  by (simp_all add: spec_minimal_width_def lengthEncode_def)

lemma length_spec_handshake_response:
  "length (spec_handshake_response caps mp cs user auth)
     = 33 + length user + spec_minimal_width (of_nat (length auth)) + length auth"
  by (simp add: spec_handshake_response_def le32_def length_lengthEncode)

lemma short_payload_InvalidHandshake:
  "length payload < 32 \<Longrightarrow>
     handleClientHandshakePacket payload w scramble sq = (Returns (Some ErrInvalidHandshake), w)"
  by (simp add: handleClientHandshakePacket_def)

text \<open>
  Claim C1 does not hold of the code. A payload shorter than 32 bytes is refused with
  \<open>ErrInvalidHandshake\<close>, but the user name is read from offset 36: a payload of 32
  bytes, and a packet from the wire with a payload of 35 bytes, make the slice expression
  \<open>payload[36:]\<close> panic. A declared auth-response length of \<open>2^64 - 1\<close>, which
  \<open>int(authLen)\<close> turns into \<open>-1\<close>, passes the bound test and makes
  \<open>payload[pos : pos+int(authLen)]\<close> panic.
\<close>

theorem handshake_parse_panics:
  "handleClientHandshakePacket (replicate 32 0) w scramble sq = (Panic, w)
   \<and> HandleHandshake (frame 1 (replicate 35 0)) w scramble sq = ((Panic, w), [])
   \<and> handleClientHandshakePacket
         (replicate 36 0 @ [0] @ [0xFE, 0xFF, 0xFF, 0xFF, 0xFF, 0xFF, 0xFF, 0xFF, 0xFF])
         w scramble sq = (Panic, w)"
proof (intro conjI)
  show "handleClientHandshakePacket (replicate 32 0) w scramble sq = (Panic, w)"
    by (simp add: handleClientHandshakePacket_def subslice_def subslice_from_def)
  have "handleClientHandshakePacket (replicate 35 0) w scramble 1 = (Panic, w)"
    by (simp add: handleClientHandshakePacket_def subslice_def subslice_from_def)
  then show "HandleHandshake (frame 1 (replicate 35 0)) w scramble sq = ((Panic, w), [])"
    using HandleHandshake_frame [of "replicate 35 0" 1 "[]" w scramble sq]
    by (simp only: length_replicate append_Nil2)
  show "handleClientHandshakePacket
         (replicate 36 0 @ [0] @ [0xFE, 0xFF, 0xFF, 0xFF, 0xFF, 0xFF, 0xFF, 0xFF, 0xFF])
         w scramble sq = (Panic, w)"
    by (simp add: handleClientHandshakePacket_def subslice_def subslice_from_def
        ReadNullTerminatedString_def ReadLengthEncodedInt_def int_add_def)
qed

section \<open>Handshake: the outcome on packets of the specification's layout\<close>

text \<open>
  Claim C10 does not hold of the code on packets of the specification's layout. With
  the scramble of the package's test and the response that matches the password, the
  user \<open>root\<close> is accepted with an OK packet of sequence 2, and the user \<open>bob\<close>, with
  the same response, is not: the OK packet is not what the code writes. The payloads
  differ only in the user name. (In \<open>HandleHandshake_layout\<close>, where the user name is
  taken to begin at offset 36, the choice between OK and ERR does not depend on it.)
\<close>

theorem username_changes_outcome:
  "handleClientHandshakePacket
      (spec_handshake_response capabilities 0x01000000 0x21 (lit ''root'')
         (spec_expected_response (lit ''password'') test_scramble))
      empty_buffer test_scramble 1
     = (Returns None, \<lparr>written = frame 2 (NewOKPacket 0 0 0), broken = False\<rparr>)
   \<and> written (snd (handleClientHandshakePacket
        (spec_handshake_response capabilities 0x01000000 0x21 (lit ''bob'')
           (spec_expected_response (lit ''password'') test_scramble))
        empty_buffer test_scramble 1))
     \<noteq> frame 2 (NewOKPacket 0 0 0)"
proof
  let ?X = "spec_expected_response (lit ''password'') test_scramble"
  let ?pre = "le32 capabilities @ le32 0x01000000 @ [0x21] @ replicate 23 0 @ lit ''root''"
  have X: "length ?X = 20" by (rule length_spec_expected_response)
  have v: "verifyMySQLNativePassword ?X (lit ''password'') test_scramble = Returns True"
    using verifyMySQLNativePassword_eq [of ?X "lit ''password''" test_scramble] X
    by (simp add: test_scramble_def)
  have split: "spec_handshake_response capabilities 0x01000000 0x21 (lit ''root'') ?X
      = ?pre @ [] @ [0] @ lengthEncode (of_nat (length ?X)) @ ?X @ []"
    by (simp add: spec_handshake_response_def)
  have pre: "length ?pre = 36" by (simp add: le32_def lit_def)
  have len: "length (?pre @ [] @ [0] @ lengthEncode (of_nat (length ?X)) @ ?X @ []) \<le> 0xFFFFFF"
    using X pre by (simp add: width_20)
  have "handleClientHandshakePacket
      (spec_handshake_response capabilities 0x01000000 0x21 (lit ''root'') ?X)
      empty_buffer test_scramble 1
     = return_error (WritePacket empty_buffer (1 + 1) (NewOKPacket 0 0 0))"
    unfolding split using handle_layout [OF pre _ len, of empty_buffer test_scramble 1] v
    by simp
  then show "handleClientHandshakePacket
      (spec_handshake_response capabilities 0x01000000 0x21 (lit ''root'') ?X)
      empty_buffer test_scramble 1
     = (Returns None, \<lparr>written = frame 2 (NewOKPacket 0 0 0), broken = False\<rparr>)"
    by (simp add: return_error_def WritePacket_def Write_def empty_buffer_def frame_def
          NewOKPacket_def lengthEncode_def le16_def)
next
  let ?X = "spec_expected_response (lit ''password'') test_scramble"
  have X: "length ?X = 20" by (rule length_spec_expected_response)
  have "length (spec_handshake_response capabilities 0x01000000 0x21 (lit ''bob'') ?X) < 58"
    unfolding length_spec_handshake_response X by (simp add: width_20 lit_def)
  from short_payload_never_ok [OF this, of test_scramble 1]
  show "written (snd (handleClientHandshakePacket
        (spec_handshake_response capabilities 0x01000000 0x21 (lit ''bob'') ?X)
        empty_buffer test_scramble 1))
     \<noteq> frame 2 (NewOKPacket 0 0 0)"
    by simp
qed

text \<open>
  Claim C4 does not hold of the code on packets of the specification's layout. For
  the user \<open>bob\<close> with the correct credential response the orchestrator does not emit
  the OK packet of sequence 2. For the user \<open>alice\<close> with an empty, hence incorrect,
  response it emits an ERR packet of sequence 2 with code 1045 and SQL state
  \<open>28000\<close> whose message names the user \<open>e\<close>, not the user that was attempted.
\<close>

theorem handshake_reads_username_at_36:
  "written (snd (fst (HandleHandshake
        (frame 1 (spec_handshake_response capabilities 0x01000000 0x21 (lit ''bob'')
                   (spec_expected_response (lit ''password'') test_scramble)))
        empty_buffer test_scramble 1)))
     \<noteq> frame 2 (NewOKPacket 0 0 0)
   \<and> HandleHandshake
        (frame 1 (spec_handshake_response capabilities 0x01000000 0x21 (lit ''alice'') []))
        empty_buffer test_scramble 1
     = ((Returns None, \<lparr>written = frame 2 (access_denied (lit ''e'')), broken = False\<rparr>), [])"
proof
  let ?X = "spec_expected_response (lit ''password'') test_scramble"
  let ?B = "spec_handshake_response capabilities 0x01000000 0x21 (lit ''bob'') ?X"
  have X: "length ?X = 20" by (rule length_spec_expected_response)
  have short: "length ?B < 58"
    unfolding length_spec_handshake_response X by (simp add: width_20 lit_def)
  then have small: "length ?B \<le> 0xFFFFFF" by simp
  show "written (snd (fst (HandleHandshake (frame 1 ?B) empty_buffer test_scramble 1)))
          \<noteq> frame 2 (NewOKPacket 0 0 0)"
    using HandleHandshake_frame [OF small, of 1 "[]" empty_buffer test_scramble 1]
      short_payload_never_ok [OF short, of test_scramble 1]
    by simp
next
  let ?A = "spec_handshake_response capabilities 0x01000000 0x21 (lit ''alice'') []"
  let ?pre = "le32 capabilities @ le32 0x01000000 @ [0x21] @ replicate 23 0 @ lit ''alic''"
  have split: "?A = ?pre @ lit ''e'' @ [0] @ lengthEncode (of_nat (length ([] :: bytes))) @ [] @ []"
    by (simp add: spec_handshake_response_def lit_def)
  have pre: "length ?pre = 36" by (simp add: le32_def lit_def)
  have user: "0 \<notin> set (lit ''e'')" by (simp add: lit_def)
  have len: "length (?pre @ lit ''e'' @ [0] @ lengthEncode (of_nat (length ([] :: bytes))) @ [] @ [])
               \<le> 0xFFFFFF"
    using pre by (simp add: width_20 lit_def)
  have small: "length ?A \<le> 0xFFFFFF"
    unfolding length_spec_handshake_response by (simp add: width_20 lit_def)
  have h: "handleClientHandshakePacket ?A empty_buffer test_scramble 1
             = (Returns None, \<lparr>written = frame 2 (access_denied (lit ''e'')), broken = False\<rparr>)"
    unfolding split using handle_layout [OF pre user len, of empty_buffer test_scramble 1]
    by (simp add: verify_not_20 return_error_def WritePacket_def Write_def frame_def
          access_denied_def NewErrPacket_def lit_def empty_buffer_def)
  show "HandleHandshake (frame 1 ?A) empty_buffer test_scramble 1
     = ((Returns None, \<lparr>written = frame 2 (access_denied (lit ''e'')), broken = False\<rparr>), [])"
    using HandleHandshake_frame [OF small, of 1 "[]" empty_buffer test_scramble 1] h
    by simp
qed

section \<open>Connection: handshake outcome and session loop\<close>

lemma SendHandshake_empty_buffer:
  "SendHandshake empty_buffer rnd
      = (Inr (map rnd [4..<24]), \<lparr>written = greeting rnd, broken = False\<rparr>)"
  by (simp add: greeting_def SendHandshake_def WritePacket_def Write_def lit_def le16_def Let_def
        empty_buffer_def)

lemma session_loop_frame:
  assumes "length payload \<le> 0xFFFFFF" "payload \<noteq> []" "conn_in c = frame s payload @ rest"
  shows "session_loop c =
          (case handleCommand (c\<lparr>conn_in := rest\<rparr>) payload of
               (Panic, c') \<Rightarrow> (Panic, c')
             | (Returns (resp, Some err), c') \<Rightarrow>
                 (let errPkt = NewErrPacket 1064 (lit ''42000'') (err_Error err)
                  in case WritePacket (conn_out c') (s + 1) errPkt of
                       (Some werr, w') \<Rightarrow>
                         (Returns (), logf ''failed to write error packet'' (c'\<lparr>conn_out := w'\<rparr>))
                     | (None, w') \<Rightarrow> session_loop (c'\<lparr>conn_out := w'\<rparr>))
             | (Returns (None, None), c') \<Rightarrow> session_loop c'
             | (Returns (Some resp, None), c') \<Rightarrow>
                 (case WritePacket (conn_out c') (s + 1) resp of
                    (Some err, w') \<Rightarrow>
                      (Returns (), logf ''failed to write response packet'' (c'\<lparr>conn_out := w'\<rparr>))
                  | (None, w') \<Rightarrow> session_loop (c'\<lparr>conn_out := w'\<rparr>)))"
  using ReadPacket_frame [OF assms(1), of s rest] assms(2,3)
  by (subst session_loop.simps)
     (simp add: frame_def split: prod.splits go.splits option.splits)

lemma session_loop_quit:
  assumes "length args < 0xFFFFFF" "conn_in c = frame s (COM_QUIT # args) @ rest"
    "\<not> broken (conn_out c)"
  shows "session_loop c = session_loop
           ((logf ''COM_QUIT received'' (c\<lparr>conn_in := rest\<rparr>))
              \<lparr>conn_out := (conn_out c)\<lparr>written := written (conn_out c)
                   @ frame (s + 1) (NewErrPacket 1064 (lit ''42000'') (lit ''EOF''))\<rparr>\<rparr>)"
proof -
  have l: "length (COM_QUIT # args) \<le> 0xFFFFFF" using assms(1) by simp
  have h: "handleCommand (c\<lparr>conn_in := rest\<rparr>) (COM_QUIT # args)
             = (Returns (None, Some EOF), logf ''COM_QUIT received'' (c\<lparr>conn_in := rest\<rparr>))"
    by (simp add: handleCommand_def index_def subslice_from_def subslice_def)
  have w: "WritePacket (conn_out c) (s + 1) (NewErrPacket 1064 (lit ''42000'') (lit ''EOF''))
             = (None, (conn_out c)\<lparr>written := written (conn_out c)
                   @ frame (s + 1) (NewErrPacket 1064 (lit ''42000'') (lit ''EOF''))\<rparr>)"
    using assms(3) by (simp add: WritePacket_def Write_def frame_def NewErrPacket_def lit_def)
  show ?thesis
    by (subst session_loop_frame [OF l _ assms(2)]) (simp_all add: h w logf_def)
qed

lemma session_loop_query:
  assumes "length args < 0xFFFFFF" "conn_in c = frame s (COM_QUERY # args) @ rest"
    "\<not> broken (conn_out c)"
  shows "session_loop c = session_loop
           (c\<lparr>conn_in := rest,
              conn_out := (conn_out c)\<lparr>written := written (conn_out c)
                   @ frame (s + 1) (NewOKPacket 0 0 0)\<rparr>\<rparr>)"
proof -
  have l: "length (COM_QUERY # args) \<le> 0xFFFFFF" using assms(1) by simp
  have h: "handleCommand (c\<lparr>conn_in := rest\<rparr>) (COM_QUERY # args)
             = (Returns (Some (NewOKPacket 0 0 0), None), c\<lparr>conn_in := rest\<rparr>)"
    by (simp add: handleCommand_def index_def subslice_from_def subslice_def executeQuery_def
          COM_QUERY_def COM_QUIT_def COM_INIT_DB_def)
  have w: "WritePacket (conn_out c) (s + 1) (NewOKPacket 0 0 0)
             = (None, (conn_out c)\<lparr>written := written (conn_out c)
                   @ frame (s + 1) (NewOKPacket 0 0 0)\<rparr>)"
    using assms(3)
    by (simp add: WritePacket_def Write_def frame_def NewOKPacket_def lengthEncode_def le16_def)
  show ?thesis
    by (subst session_loop_frame [OF l _ assms(2)]) (simp_all add: h w)
qed

lemma session_loop_eof:
  "conn_in c = [] \<Longrightarrow> session_loop c
     = (Returns (), logf ''client disconnected (EOF)'' (c\<lparr>conn_in := []\<rparr>))"
  by (subst session_loop.simps) (simp add: ReadPacket_def ReadFull_def)

text \<open>
  Claim C2 does not hold of the code. For a handshake response whose credential
  verification fails (user \<open>root\<close>, empty auth response) \<open>HandleHandshake\<close> writes
  the ERR packet and returns \<open>nil\<close>; \<open>Handle\<close> then logs that the client is
  authenticated, enters the session loop and answers the query that follows with an OK
  packet.
\<close>

theorem auth_failure_enters_session:
  "HandleHandshake
       (frame 1 (spec_handshake_response capabilities 0x01000000 0x21 (lit ''root'') []))
       empty_buffer scramble 1
     = ((Returns None, \<lparr>written = frame 2 (access_denied []), broken = False\<rparr>), [])
   \<and> logger (Handle rnd
         (frame 1 (spec_handshake_response capabilities 0x01000000 0x21 (lit ''root'') [])
            @ frame 0 (COM_QUERY # lit ''SELECT 1'')) empty_buffer)
     = [''new connection'', ''client authenticated'', ''client disconnected (EOF)'',
        ''connection closed'']
   \<and> written (conn_out (Handle rnd
         (frame 1 (spec_handshake_response capabilities 0x01000000 0x21 (lit ''root'') [])
            @ frame 0 (COM_QUERY # lit ''SELECT 1'')) empty_buffer))
     = greeting rnd @ frame 2 (access_denied []) @ frame 1 (NewOKPacket 0 0 0)"
proof -
  let ?R = "spec_handshake_response capabilities 0x01000000 0x21 (lit ''root'') []"
  let ?q = "frame 0 (COM_QUERY # lit ''SELECT 1'')"
  let ?pre = "le32 capabilities @ le32 0x01000000 @ [0x21] @ replicate 23 0 @ lit ''root''"
  have split: "?R = ?pre @ [] @ [0] @ lengthEncode (of_nat (length ([] :: bytes))) @ [] @ []"
    by (simp add: spec_handshake_response_def)
  have pre: "length ?pre = 36" by (simp add: le32_def lit_def)
  have len: "length (?pre @ [] @ [0] @ lengthEncode (of_nat (length ([] :: bytes))) @ [] @ [])
               \<le> 0xFFFFFF"
    using pre by (simp add: width_20)
  have small: "length ?R \<le> 0xFFFFFF"
    unfolding length_spec_handshake_response by (simp add: width_20 lit_def)
  have h: "handleClientHandshakePacket ?R w scr 1
             = (if broken w then (Returns (Some ErrWrite), w)
                else (Returns None, w\<lparr>written := written w @ frame 2 (access_denied [])\<rparr>))"
    for w scr
    unfolding split using handle_layout [OF pre _ len, of w scr 1]
    by (simp add: verify_not_20 return_error_def WritePacket_def Write_def frame_def
          access_denied_def NewErrPacket_def lit_def)
  have hh: "HandleHandshake (frame 1 ?R @ rest) w scr sq
             = (if broken w then (Returns (Some ErrWrite), w)
                else (Returns None, w\<lparr>written := written w @ frame 2 (access_denied [])\<rparr>), rest)"
    for w scr sq rest
    using HandleHandshake_frame [OF small, of 1 rest w scr sq] by (simp add: h)
  have a: "HandleHandshake (frame 1 ?R) empty_buffer scramble 1
     = ((Returns None, \<lparr>written = frame 2 (access_denied []), broken = False\<rparr>), [])"
    using hh [of "[]" empty_buffer scramble 1] by (simp add: empty_buffer_def)
  let ?c1 = "\<lparr>conn_in = ?q @ [],
      conn_out = \<lparr>written = greeting rnd @ frame 2 (access_denied []), broken = False\<rparr>,
      conn_closed = False, logger = [''new connection'', ''client authenticated''],
      sequence = 1, username = []\<rparr>"
  let ?c2 = "\<lparr>conn_in = [],
      conn_out = \<lparr>written = greeting rnd @ frame 2 (access_denied [])
                     @ frame 1 (NewOKPacket 0 0 0), broken = False\<rparr>,
      conn_closed = False, logger = [''new connection'', ''client authenticated''],
      sequence = 1, username = []\<rparr>"
  have 2: "session_loop ?c1 = session_loop ?c2"
    using session_loop_query [of "lit ''SELECT 1''" ?c1 0 "[]"] by (simp add: lit_def)
  have 3: "session_loop ?c2 = (Returns (), logf ''client disconnected (EOF)'' ?c2)"
    using session_loop_eof [of ?c2] by simp
  have body: "Handle_body rnd (NewConnection (frame 1 ?R @ ?q) empty_buffer)
                = (Returns (), logf ''client disconnected (EOF)'' ?c2)"
    unfolding 2 [symmetric] 3 [symmetric]
    by (simp add: Handle_body_def NewConnection_def logf_def SendHandshake_empty_buffer hh Let_def)
  show ?thesis
    using a by (simp add: Handle_def Connection_Handle_def body logf_def)
qed

text \<open>
  Claim C5 does not hold of the code. On a packet whose first payload byte is
  \<open>COM_QUIT\<close> the session loop writes an ERR packet (code 1064, SQL state
  \<open>42000\<close>, message \<open>EOF\<close>) with the next sequence number and goes on: it reads
  the query packet that follows and answers it with an OK packet, and returns only when
  the stream ends.
\<close>

theorem quit_is_answered_and_loop_continues:
  "session_loop
     \<lparr>conn_in = frame 0 [COM_QUIT] @ frame 0 (COM_QUERY # lit ''SELECT 1''),
      conn_out = empty_buffer, conn_closed = False, logger = [], sequence = 1, username = []\<rparr>
   = (Returns (),
      \<lparr>conn_in = [],
       conn_out = \<lparr>written = frame 1 (NewErrPacket 1064 (lit ''42000'') (lit ''EOF''))
                               @ frame 1 (NewOKPacket 0 0 0),
                   broken = False\<rparr>,
       conn_closed = False, logger = [''COM_QUIT received'', ''client disconnected (EOF)''],
       sequence = 1, username = []\<rparr>)"
proof -
  let ?q = "frame 0 (COM_QUERY # lit ''SELECT 1'')"
  let ?e = "frame 1 (NewErrPacket 1064 (lit ''42000'') (lit ''EOF''))"
  let ?c0 = "\<lparr>conn_in = frame 0 [COM_QUIT] @ ?q,
      conn_out = empty_buffer, conn_closed = False, logger = [], sequence = 1, username = []\<rparr>"
  let ?c1 = "\<lparr>conn_in = ?q @ [],
      conn_out = \<lparr>written = ?e, broken = False\<rparr>, conn_closed = False,
      logger = [''COM_QUIT received''], sequence = 1, username = []\<rparr>"
  let ?c2 = "\<lparr>conn_in = [],
      conn_out = \<lparr>written = ?e @ frame 1 (NewOKPacket 0 0 0), broken = False\<rparr>,
      conn_closed = False, logger = [''COM_QUIT received''], sequence = 1, username = []\<rparr>"
  have 1: "session_loop ?c0 = session_loop ?c1"
    using session_loop_quit [of "[]" ?c0 0 ?q] by (simp add: empty_buffer_def logf_def)
  have 2: "session_loop ?c1 = session_loop ?c2"
    using session_loop_query [of "lit ''SELECT 1''" ?c1 0 "[]"] by (simp add: lit_def)
  have 3: "session_loop ?c2 = (Returns (),
      \<lparr>conn_in = [],
       conn_out = \<lparr>written = ?e @ frame 1 (NewOKPacket 0 0 0), broken = False\<rparr>,
       conn_closed = False, logger = [''COM_QUIT received'', ''client disconnected (EOF)''],
       sequence = 1, username = []\<rparr>)"
    using session_loop_eof [of ?c2] by (simp add: logf_def)
  show ?thesis unfolding 1 2 3 ..
qed


end
